theory Spec2Isabelle
  imports Main Complex_Main "HOL-Library.Multiset"
begin

section \<open>Values shared by all components\<close>

text \<open>
  Python floats. The array cells of this program are IEEE doubles; what the properties
  below depend on is whether a cell is finite, not-a-number or infinite, so these cases
  are constructors. Rounding of finite products is not modelled: a finite value is a
  real number.
\<close>

datatype pyfloat = Finite real | NaN | PosInf | NegInf

fun is_finite :: "pyfloat \<Rightarrow> bool" where
  "is_finite (Finite r) = True"
| "is_finite NaN = False"
| "is_finite PosInf = False"
| "is_finite NegInf = False"

text \<open>The product of two floats, with the IEEE rules for the special values.\<close>

fun fmul :: "pyfloat \<Rightarrow> pyfloat \<Rightarrow> pyfloat" where
  "fmul NaN b = NaN"
| "fmul a NaN = NaN"
| "fmul (Finite a) (Finite b) = Finite (a * b)"
| "fmul (Finite a) PosInf = (if a = 0 then NaN else if 0 < a then PosInf else NegInf)"
| "fmul (Finite a) NegInf = (if a = 0 then NaN else if 0 < a then NegInf else PosInf)"
| "fmul PosInf (Finite b) = (if b = 0 then NaN else if 0 < b then PosInf else NegInf)"
| "fmul NegInf (Finite b) = (if b = 0 then NaN else if 0 < b then NegInf else PosInf)"
| "fmul PosInf PosInf = PosInf"
| "fmul PosInf NegInf = NegInf"
| "fmul NegInf PosInf = NegInf"
| "fmul NegInf NegInf = PosInf"

definition float_of_int :: "int \<Rightarrow> pyfloat" where
  "float_of_int i = Finite (of_int i)"

text \<open>A row of an array whose last axis has length 3: (x, y, depth).\<close>

type_synonym point = "pyfloat \<times> pyfloat \<times> pyfloat"

text \<open>The exceptions the modelled code paths can raise.\<close>

datatype error = ValueError | KeyError | TypeError | IndexError

definition ebind :: "error + 'a \<Rightarrow> ('a \<Rightarrow> error + 'b) \<Rightarrow> error + 'b" where
  "ebind m f = (case m of Inl e \<Rightarrow> Inl e | Inr v \<Rightarrow> f v)"

text \<open>\<^verbatim>\<open>np.full((n, 3), v)\<close>\<close>

definition np_full :: "nat \<Rightarrow> pyfloat \<Rightarrow> point list" where
  "np_full n v = replicate n (v, v, v)"

section \<open>mediapipe\_observation.py\<close>

text \<open>
  The point counts come from the mediapipe library (\<^verbatim>\<open>len(PoseLandmark)\<close>,
  \<^verbatim>\<open>len(HandLandmark)\<close>, \<^verbatim>\<open>FACEMESH_NUM_LANDMARKS_WITH_IRISES\<close>), which is not part of
  the repository; the model takes them as a parameter. \<open>mediapipe_holistic_schema\<close> holds
  the library's values.
\<close>

record mediapipe_schema =
  num_body_points :: nat
  num_single_hand_points :: nat
  num_face_points :: nat

definition mediapipe_holistic_schema :: mediapipe_schema where
  "mediapipe_holistic_schema =
     \<lparr>num_body_points = 33, num_single_hand_points = 21, num_face_points = 478\<rparr>"


text \<open>A \<^verbatim>\<open>NormalizedLandmark\<close>: the fields x, y, z the code reads.\<close>

record landmark =
  landmark_x :: pyfloat
  landmark_y :: pyfloat
  landmark_z :: pyfloat

text \<open>
  A \<^verbatim>\<open>NormalizedLandmarkList\<close> is the list in its \<^verbatim>\<open>landmark\<close> field; a region that
  was not detected is \<^verbatim>\<open>None\<close>.
\<close>

record mediapipe_observation =
  pose_landmarks :: "landmark list option"
  right_hand_landmarks :: "landmark list option"
  left_hand_landmarks :: "landmark list option"
  face_landmarks :: "landmark list option"
  image_size :: "int \<times> int"

definition pose_landmarks_empty :: "mediapipe_observation \<Rightarrow> bool" where
  "pose_landmarks_empty obs = (pose_landmarks obs = None)"

definition right_hand_landmarks_empty :: "mediapipe_observation \<Rightarrow> bool" where
  "right_hand_landmarks_empty obs = (right_hand_landmarks obs = None)"

definition left_hand_landmarks_empty :: "mediapipe_observation \<Rightarrow> bool" where
  "left_hand_landmarks_empty obs = (left_hand_landmarks obs = None)"

definition face_landmarks_empty :: "mediapipe_observation \<Rightarrow> bool" where
  "face_landmarks_empty obs = (face_landmarks obs = None)"

text \<open>
  \<^verbatim>\<open>np.array([(l.x, l.y, l.z) for l in landmarks.landmark])\<close>: a list of n > 0 triples
  gives an array of shape (n, 3); the empty list gives an array of shape (0,).
\<close>

datatype landmark_ndarray = Shape_0 | Shape_n_3 "point list"

definition np_array :: "point list \<Rightarrow> landmark_ndarray" where
  "np_array ps = (case ps of [] \<Rightarrow> Shape_0 | _ \<Rightarrow> Shape_n_3 ps)"

text \<open>
  \<^verbatim>\<open>arr *= np.array([a, b, c])\<close>: the operand of shape (3,) broadcasts over the rows of
  an (n, 3) array; against shape (0,) the shapes cannot be broadcast and numpy raises
  ValueError.
\<close>

definition imul_broadcast :: "landmark_ndarray \<Rightarrow> point \<Rightarrow> error + point list" where
  "imul_broadcast arr v =
     (case arr of
        Shape_0 \<Rightarrow> Inl ValueError
      | Shape_n_3 rows \<Rightarrow>
          Inr (map (\<lambda>(px, py, pz).
                      (fmul px (fst v), fmul py (fst (snd v)), fmul pz (snd (snd v)))) rows))"

definition landmarks_to_array ::
  "mediapipe_observation \<Rightarrow> landmark list \<Rightarrow> error + point list" where
  "landmarks_to_array obs landmarks =
     (let landmark_array =
            np_array (map (\<lambda>l. (landmark_x l, landmark_y l, landmark_z l)) landmarks)
      in imul_broadcast landmark_array
           (float_of_int (fst (image_size obs)),
            float_of_int (snd (image_size obs)),
            float_of_int (fst (image_size obs))))"

definition pose_trajectories ::
  "mediapipe_schema \<Rightarrow> mediapipe_observation \<Rightarrow> error + point list" where
  "pose_trajectories S obs =
     (if pose_landmarks_empty obs then Inr (np_full (num_body_points S) NaN)
      else landmarks_to_array obs (the (pose_landmarks obs)))"

definition right_hand_trajectories ::
  "mediapipe_schema \<Rightarrow> mediapipe_observation \<Rightarrow> error + point list" where
  "right_hand_trajectories S obs =
     (if right_hand_landmarks_empty obs then Inr (np_full (num_single_hand_points S) NaN)
      else landmarks_to_array obs (the (right_hand_landmarks obs)))"

definition left_hand_trajectories ::
  "mediapipe_schema \<Rightarrow> mediapipe_observation \<Rightarrow> error + point list" where
  "left_hand_trajectories S obs =
     (if left_hand_landmarks_empty obs then Inr (np_full (num_single_hand_points S) NaN)
      else landmarks_to_array obs (the (left_hand_landmarks obs)))"

definition face_trajectories ::
  "mediapipe_schema \<Rightarrow> mediapipe_observation \<Rightarrow> error + point list" where
  "face_trajectories S obs =
     (if face_landmarks_empty obs then Inr (np_full (num_face_points S) NaN)
      else landmarks_to_array obs (the (face_landmarks obs)))"


text \<open>
  The values \<^verbatim>\<open>to_serializable_dict\<close> builds: nested Python lists of floats
  (\<^verbatim>\<open>ndarray.tolist()\<close>), the tuple of ints, and the dict with its keys in insertion order.
\<close>

datatype json = JFloat pyfloat | JInt int | JList "json list" | JDict "(string \<times> json) list"

definition tolist :: "point list \<Rightarrow> json" where
  "tolist rows = JList (map (\<lambda>(px, py, pz). JList [JFloat px, JFloat py, JFloat pz]) rows)"

text \<open>
  Whether \<^verbatim>\<open>json.dumps(v, allow_nan=...)\<close> returns: the encoder raises ValueError on a
  float that is NaN or infinite only when \<^verbatim>\<open>allow_nan\<close> is false; the default is true.
\<close>

fun json_dumps_returns :: "bool \<Rightarrow> json \<Rightarrow> bool" where
  "json_dumps_returns allow_nan (JFloat f) = (allow_nan \<or> is_finite f)"
| "json_dumps_returns allow_nan (JInt i) = True"
| "json_dumps_returns allow_nan (JList js) = list_all (json_dumps_returns allow_nan) js"
| "json_dumps_returns allow_nan (JDict kvs) =
     list_all (json_dumps_returns allow_nan) (map snd kvs)"

definition to_serializable_dict ::
  "mediapipe_schema \<Rightarrow> mediapipe_observation \<Rightarrow> error + json" where
  "to_serializable_dict S obs =
     ebind (pose_trajectories S obs) (\<lambda>pose.
     ebind (right_hand_trajectories S obs) (\<lambda>right_hand.
     ebind (left_hand_trajectories S obs) (\<lambda>left_hand.
     ebind (face_trajectories S obs) (\<lambda>face.
       (let d = JDict
                  [(''pose_trajectories'', tolist pose),
                   (''right_hand_trajectories'', tolist right_hand),
                   (''left_hand_trajectories'', tolist left_hand),
                   (''face_trajectories'', tolist face),
                   (''image_size'',
                      JList [JInt (fst (image_size obs)), JInt (snd (image_size obs))])]
        in if json_dumps_returns True d then Inr d else Inl ValueError)))))"

section \<open>openpose\_recorder.py\<close>

text \<open>
  \<^verbatim>\<open>OpenPoseModelInfo\<close> (openpose\_model\_info.py) is not among the source files; the
  three counts the recorder reads from it are a parameter.
\<close>

record openpose_model_info =
  num_tracked_points :: nat
  hand_markers :: nat
  face_markers :: nat

text \<open>
  One parsed result file: its name and the value of \<^verbatim>\<open>data["people"]\<close>, each person a
  dict from key to a flat list of numbers.
\<close>

type_synonym person_data = "string \<rightharpoonup> pyfloat list"

record json_file =
  json_name :: string
  people :: "person_data list"

text \<open>
  \<^verbatim>\<open>re.search(r"_(\d{12})_keypoints", filename)\<close>: the leftmost position at which an
  underscore, twelve digits and the text \<^verbatim>\<open>_keypoints\<close> follow each other; the result is
  the number the twelve digits spell, or \<^verbatim>\<open>None\<close>. File names are taken as ASCII.
\<close>

definition is_digit :: "char \<Rightarrow> bool" where
  "is_digit c = (c \<in> set ''0123456789'')"

definition digit_value :: "char \<Rightarrow> nat" where
  "digit_value c = of_char c - 48"

definition int_of_digits :: "string \<Rightarrow> nat" where
  "int_of_digits ds = foldl (\<lambda>acc c. 10 * acc + digit_value c) 0 ds"

definition match_frame_index_here :: "string \<Rightarrow> nat option" where
  "match_frame_index_here s =
     (case s of
        [] \<Rightarrow> None
      | c # rest \<Rightarrow>
          (let ds = take 12 rest in
           if c = CHR ''_'' \<and> length ds = 12 \<and> list_all is_digit ds
              \<and> take 10 (drop 12 rest) = ''_keypoints''
           then Some (int_of_digits ds) else None))"

fun extract_frame_index :: "string \<Rightarrow> nat option" where
  "extract_frame_index [] = None"
| "extract_frame_index (c # rest) =
     (case match_frame_index_here (c # rest) of
        Some n \<Rightarrow> Some n
      | None \<Rightarrow> extract_frame_index rest)"

text \<open>
  \<^verbatim>\<open>frame_indices.sort()\<close> on a list of \<^verbatim>\<open>Optional[int]\<close>: comparing \<^verbatim>\<open>None\<close> with
  anything raises TypeError, and a list of two or more elements compares each of them.
\<close>

definition sort_frame_indices :: "nat option list \<Rightarrow> error + nat option list" where
  "sort_frame_indices xs =
     (if 2 \<le> length xs \<and> None \<in> set xs then Inl TypeError
      else if xs = [None] then Inr [None]
      else Inr (map Some (sort (map the xs))))"

text \<open>
  \<^verbatim>\<open>np.reshape(v, (-1, 3))\<close> of a flat list: ValueError unless the length is a multiple
  of 3.
\<close>

fun triples :: "pyfloat list \<Rightarrow> point list" where
  "triples (a # b # c # rest) = (a, b, c) # triples rest"
| "triples _ = []"

definition reshape_3 :: "pyfloat list \<Rightarrow> error + point list" where
  "reshape_3 v = (if length v mod 3 = 0 then Inr (triples v) else Inl ValueError)"

text \<open>
  numpy's assignment of a value of shape (k, 3) to a target of shape (n, 3): the value
  is taken as it is when k = n, repeated when k = 1, and ValueError is raised otherwise.
\<close>

definition broadcast_rows :: "nat \<Rightarrow> point list \<Rightarrow> error + point list" where
  "broadcast_rows n v =
     (if length v = n then Inr v
      else if length v = 1 then Inr (replicate n (hd v))
      else Inl ValueError)"

text \<open>
  \<^verbatim>\<open>arr[start:stop, :] = v\<close> for \<open>start \<le> stop \<le> length arr\<close>.
\<close>

definition assign_rows ::
  "point list \<Rightarrow> nat \<Rightarrow> nat \<Rightarrow> point list \<Rightarrow> error + point list" where
  "assign_rows arr start stop v =
     ebind (broadcast_rows (stop - start) v) (\<lambda>rows.
       Inr (take start arr @ rows @ drop stop arr))"

definition extract_keypoints ::
  "openpose_model_info \<Rightarrow> person_data \<Rightarrow> error + point list" where
  "extract_keypoints info person_data =
     (let body_markers = num_tracked_points info;
          hand_markers = hand_markers info;
          face_markers = face_markers info;
          keypoints_array = np_full (body_markers + (2 * hand_markers) + face_markers) NaN
      in
      ebind (case person_data ''pose_keypoints_2d'' of
               None \<Rightarrow> Inr keypoints_array
             | Some v \<Rightarrow>
                 ebind (reshape_3 v) (\<lambda>r.
                   assign_rows keypoints_array 0 body_markers (take body_markers r)))
        (\<lambda>keypoints_array.
      ebind (case (person_data ''hand_left_keypoints_2d'',
                   person_data ''hand_right_keypoints_2d'') of
               (Some vl, Some vr) \<Rightarrow>
                 ebind (reshape_3 vl) (\<lambda>rl.
                 ebind (assign_rows keypoints_array body_markers
                          (body_markers + hand_markers) (take hand_markers rl)) (\<lambda>arr.
                 ebind (reshape_3 vr) (\<lambda>rr.
                   assign_rows arr (body_markers + hand_markers)
                     (body_markers + 2 * hand_markers) (take hand_markers rr))))
             | _ \<Rightarrow> Inr keypoints_array)
        (\<lambda>keypoints_array.
      (case person_data ''face_keypoints_2d'' of
         None \<Rightarrow> Inr keypoints_array
       | Some v \<Rightarrow>
           ebind (reshape_3 v) (\<lambda>r.
             assign_rows keypoints_array (body_markers + 2 * hand_markers)
               (body_markers + (2 * hand_markers) + face_markers)
               (take face_markers r))))))"

text \<open>
  \<^verbatim>\<open>data_array[idx, :, :] = keypoints\<close> on an array of \<open>num_markers\<close> points per frame.
  An integer index outside the frame axis raises IndexError before the value is looked
  at; the index \<^verbatim>\<open>None\<close> is numpy's new axis, so the value is broadcast over every frame.
\<close>

definition assign_frame ::
  "nat \<Rightarrow> point list list \<Rightarrow> nat option \<Rightarrow> point list \<Rightarrow> error + point list list" where
  "assign_frame num_markers data_array idx keypoints =
     (case idx of
        Some i \<Rightarrow>
          (if i < length data_array
           then ebind (broadcast_rows num_markers keypoints) (\<lambda>row.
                  Inr (data_array[i := row]))
           else Inl IndexError)
      | None \<Rightarrow>
          ebind (broadcast_rows num_markers keypoints) (\<lambda>row.
            Inr (map (\<lambda>_. row) data_array)))"

text \<open>
  The loop of \<^verbatim>\<open>parse_openpose_jsons\<close> over \<^verbatim>\<open>enumerate(files)\<close>, from position
  \<open>file_index\<close> on.
\<close>

fun process_json_files ::
  "openpose_model_info \<Rightarrow> nat \<Rightarrow> nat option list \<Rightarrow> nat \<Rightarrow> json_file list
   \<Rightarrow> point list list \<Rightarrow> error + point list list" where
  "process_json_files info num_markers frame_indices file_index [] data_array =
     Inr data_array"
| "process_json_files info num_markers frame_indices file_index (json_file # files) data_array =
     (if people json_file \<noteq> []
      then ebind (extract_keypoints info (hd (people json_file))) (\<lambda>keypoints.
           ebind (assign_frame num_markers data_array (frame_indices ! file_index) keypoints)
             (\<lambda>data_array.
               process_json_files info num_markers frame_indices (Suc file_index) files
                 data_array))
      else process_json_files info num_markers frame_indices (Suc file_index) files
             data_array)"

text \<open>
  \<open>files\<close> is the result of \<^verbatim>\<open>glob("*.json")\<close>, in the order the directory lists them.
\<close>

definition parse_openpose_jsons ::
  "bool \<Rightarrow> bool \<Rightarrow> openpose_model_info \<Rightarrow> json_file list \<Rightarrow> error + point list list" where
  "parse_openpose_jsons track_hands track_faces info files =
     (let num_frames = length files in
      ebind (sort_frame_indices (map (\<lambda>f. extract_frame_index (json_name f)) files))
        (\<lambda>frame_indices.
          (let num_markers =
                 num_tracked_points info
                 + (if track_hands then hand_markers info * 2 else 0)
                 + (if track_faces then face_markers info else 0);
               data_array = replicate num_frames (np_full num_markers NaN)
           in process_json_files info num_markers frame_indices 0 files data_array)))"

section \<open>brightest\_point\_recorder.py and base\_recorder.py\<close>

text \<open>
  \<^verbatim>\<open>TrackedObject\<close> (tracked\_object.py) is not among the source files; the record has the
  three numeric fields the recorder reads.
\<close>

record tracked_object =
  pixel_x :: pyfloat
  pixel_y :: pyfloat
  depth_z :: pyfloat

text \<open>An array of shape (frames, points, 3), frame by frame.\<close>

type_synonym frames_array = "point list list"

record recorder =
  recorded_objects :: "tracked_object list"
  recorded_objects_array :: "frames_array option"

definition new_recorder :: recorder where
  "new_recorder = \<lparr>recorded_objects = [], recorded_objects_array = None\<rparr>"

definition record_tracked_objects ::
  "(string \<rightharpoonup> tracked_object) \<Rightarrow> recorder \<Rightarrow> error + recorder" where
  "record_tracked_objects tracked_objects r =
     (case tracked_objects ''brightest_point'' of
        None \<Rightarrow> Inl KeyError
      | Some obj \<Rightarrow> Inr (r\<lparr>recorded_objects := recorded_objects r @ [obj]\<rparr>))"

definition clear_recorded_objects :: "recorder \<Rightarrow> recorder" where
  "clear_recorded_objects r = r\<lparr>recorded_objects := [], recorded_objects_array := None\<rparr>"

text \<open>\<^verbatim>\<open>np.zeros((n, 1, 3))\<close>\<close>

definition np_zeros_n_1_3 :: "nat \<Rightarrow> frames_array" where
  "np_zeros_n_1_3 n = replicate n [(Finite 0, Finite 0, Finite 0)]"

text \<open>\<^verbatim>\<open>arr[i, j, k] = v\<close> for indices inside the array.\<close>

definition set_coordinate :: "point \<Rightarrow> nat \<Rightarrow> pyfloat \<Rightarrow> point" where
  "set_coordinate p k v =
     (case p of (a, b, c) \<Rightarrow>
        if k = 0 then (v, b, c) else if k = 1 then (a, v, c) else (a, b, v))"

definition set_cell :: "frames_array \<Rightarrow> nat \<Rightarrow> nat \<Rightarrow> nat \<Rightarrow> pyfloat \<Rightarrow> frames_array" where
  "set_cell arr i j k v = arr[i := (arr ! i)[j := set_coordinate (arr ! i ! j) k v]]"

text \<open>The loop over \<^verbatim>\<open>enumerate(self.recorded_objects)\<close>, from index \<open>i\<close> on.\<close>

fun fill_recorded_objects :: "nat \<Rightarrow> tracked_object list \<Rightarrow> frames_array \<Rightarrow> frames_array" where
  "fill_recorded_objects i [] arr = arr"
| "fill_recorded_objects i (recorded_object # rest) arr =
     fill_recorded_objects (Suc i) rest
       (set_cell
          (set_cell
             (set_cell arr i 0 0 (pixel_x recorded_object))
             i 0 1 (pixel_y recorded_object))
          i 0 2 (depth_z recorded_object))"

text \<open>Returns the array and the recorder holding it.\<close>

definition process_tracked_objects :: "recorder \<Rightarrow> frames_array \<times> recorder" where
  "process_tracked_objects r =
     (let arr = fill_recorded_objects 0 (recorded_objects r)
                  (np_zeros_n_1_3 (length (recorded_objects r)))
      in (arr, r\<lparr>recorded_objects_array := Some arr\<rparr>))"

section \<open>process\_folder\_of\_videos.py\<close>

text \<open>
  A numpy array of any shape, as its shape and its cells in row-major order. The
  per-video arrays come from the trackers, which are not among the source files.
\<close>

record ndarray =
  shape :: "nat list"
  flat :: "pyfloat list"

text \<open>
  \<^verbatim>\<open>np.stack(arrays)\<close>: ValueError on an empty list ("need at least one array to
  stack") and when the shapes differ ("all input arrays must have the same shape");
  otherwise a new leading axis over the arrays.
\<close>

definition np_stack :: "ndarray list \<Rightarrow> error + ndarray" where
  "np_stack arrays =
     (if arrays = [] then Inl ValueError
      else if \<not> list_all (\<lambda>a. shape a = shape (hd arrays)) arrays then Inl ValueError
      else Inr \<lparr>shape = length arrays # shape (hd arrays),
                flat = concat (map flat arrays)\<rparr>)"

text \<open>A \<^verbatim>\<open>Path\<close> as the list of its components.\<close>

type_synonym path = "string list"

definition parent :: "path \<Rightarrow> path" where
  "parent p = butlast p"

text \<open>
  \<^verbatim>\<open>Path.stem\<close>: the last component without its final suffix; a dot at the start or
  at the end of the name starts no suffix.
\<close>

definition stem :: "path \<Rightarrow> string" where
  "stem p =
     (let name = (if p = [] then [] else last p);
          before_last_dot = rev (dropWhile (\<lambda>c. c \<noteq> CHR ''.'') (rev name))
      in if before_last_dot = [] then name
         else (let i = length before_last_dot - 1
               in if 0 < i \<and> i < length name - 1 then take i name else name))"

definition file_name_dictionary :: "string \<rightharpoonup> string" where
  "file_name_dictionary = map_of
     [(''MediapipeHolisticTracker'',
         ''mediapipe2dData_numCams_numFrames_numTrackedPoints_pixelXY.npy''),
      (''YOLOMediapipeComboTracker'',
         ''mediapipe2dData_numCams_numFrames_numTrackedPoints_pixelXY.npy''),
      (''YOLOPoseTracker'',
         ''yolo2dData_numCams_numFrames_numTrackedPoints_pixelXY.npy''),
      (''BrightestPointTracker'',
         ''brightestPoint2dData_numCams_numFrames_numTrackedPoints_pixelXY.npy'')]"

text \<open>
  The tracker classes are not among the source files. A tracker is the class
  \<^verbatim>\<open>get_tracker\<close> instantiates, with the parameters it is built from; what its
  \<^verbatim>\<open>process_video\<close> method returns for a video is the parameter \<open>process_video\<close> of the
  functions below.
\<close>

datatype 'p tracker =
    MediapipeHolisticTracker 'p
  | YOLOMediapipeComboTracker 'p
  | YOLOPoseTracker
  | BrightestPointTracker

definition get_tracker :: "string \<Rightarrow> 'p \<Rightarrow> error + 'p tracker" where
  "get_tracker tracker_name tracking_params =
     (if tracker_name = ''MediapipeHolisticTracker''
        then Inr (MediapipeHolisticTracker tracking_params)
      else if tracker_name = ''YOLOMediapipeComboTracker''
        then Inr (YOLOMediapipeComboTracker tracking_params)
      else if tracker_name = ''YOLOPoseTracker'' then Inr YOLOPoseTracker
      else if tracker_name = ''BrightestPointTracker'' then Inr BrightestPointTracker
      else Inl ValueError)"

text \<open>
  One task of the batch job. \<^verbatim>\<open>process_single_video\<close> builds a tracker of its own for
  the task; clearing that tracker's recorder at the end changes nothing outside the call.
\<close>

type_synonym 'p task = "string \<times> 'p \<times> path \<times> path"

definition process_single_video ::
  "('p tracker \<Rightarrow> path \<Rightarrow> path \<Rightarrow> error + ndarray) \<Rightarrow> 'p task \<Rightarrow> error + ndarray" where
  "process_single_video process_video task =
     (case task of (tracker_name, tracking_params, video_path, annotated_video_path) \<Rightarrow>
        (let video_name = stem video_path @ ''_mediapipe.mp4'' in
         ebind (get_tracker tracker_name tracking_params) (\<lambda>tracker.
           process_video tracker video_path (annotated_video_path @ [video_name]))))"

text \<open>
  Lines 55 to 58: the worker count when \<^verbatim>\<open>num_processes\<close> is \<^verbatim>\<open>None\<close>.
\<close>

definition derive_num_processes :: "int \<Rightarrow> path list \<Rightarrow> int option \<Rightarrow> int" where
  "derive_num_processes cpu_count mp4_files num_processes =
     (case num_processes of
        None \<Rightarrow> min (cpu_count - 1) (int (length mp4_files))
      | Some n \<Rightarrow> n)"

text \<open>The sequential branch: the loop appending to \<^verbatim>\<open>array_list\<close>.\<close>

fun run_tasks :: "('t \<Rightarrow> error + 'r) \<Rightarrow> 't list \<Rightarrow> 'r list \<Rightarrow> error + 'r list" where
  "run_tasks f [] array_list = Inr array_list"
| "run_tasks f (task # tasks) array_list =
     ebind (f task) (\<lambda>a. run_tasks f tasks (array_list @ [a]))"

text \<open>
  The worker pool. \<^verbatim>\<open>Pool.starmap\<close> hands the tasks to the workers, stores each result
  at the position of its task as it arrives, and returns the list once every task has
  finished; the first failure to arrive is the exception it raises. The order in which
  the tasks finish is not determined by the program: it is the parameter \<open>schedule\<close>.
  Every list of numbers is read as an order of all \<open>n\<close> tasks: the indices below \<open>n\<close>
  in order of first appearance, then the indices it leaves out. Since the order holds
  every index, every position is filled when the last task has finished.
\<close>

definition completion_order :: "nat \<Rightarrow> nat list \<Rightarrow> nat list" where
  "completion_order n schedule =
     remdups (filter (\<lambda>i. i < n) schedule)
     @ filter (\<lambda>i. i \<notin> set schedule) [0..<n]"

fun pool_gather ::
  "('t \<Rightarrow> error + 'r) \<Rightarrow> 't list \<Rightarrow> nat list \<Rightarrow> 'r option list \<Rightarrow> error + 'r option list" where
  "pool_gather f tasks [] slots = Inr slots"
| "pool_gather f tasks (i # order) slots =
     ebind (f (tasks ! i)) (\<lambda>a. pool_gather f tasks order (slots[i := Some a]))"

definition pool_starmap ::
  "nat list \<Rightarrow> ('t \<Rightarrow> error + 'r) \<Rightarrow> 't list \<Rightarrow> error + 'r list" where
  "pool_starmap schedule f tasks =
     ebind (pool_gather f tasks (completion_order (length tasks) schedule)
              (replicate (length tasks) None))
       (\<lambda>slots. Inr (map the slots))"

text \<open>
  Lines 62 to 77: the path the combined array is stored at, the folder for the annotated
  videos, and the task list, one task per video in the order of the listing.
\<close>

definition resolve_output_path :: "path \<Rightarrow> string \<Rightarrow> path option \<Rightarrow> path" where
  "resolve_output_path synchronized_video_path file_name output_path =
     (case output_path of
        None \<Rightarrow> parent synchronized_video_path @ [''output_data'', ''raw_data'', file_name]
      | Some p \<Rightarrow> p)"

definition resolve_annotated_video_path :: "path \<Rightarrow> path option \<Rightarrow> path" where
  "resolve_annotated_video_path synchronized_video_path annotated_video_path =
     (case annotated_video_path of
        None \<Rightarrow> parent synchronized_video_path @ [''annotated_videos'']
      | Some p \<Rightarrow> p)"

definition make_tasks :: "string \<Rightarrow> 'p \<Rightarrow> path \<Rightarrow> path list \<Rightarrow> 'p task list" where
  "make_tasks tracker_name tracking_params annotated_video_path mp4_files =
     map (\<lambda>video_path. (tracker_name, tracking_params, video_path, annotated_video_path))
       mp4_files"

text \<open>
  \<open>cpu_count\<close> is the value of \<^verbatim>\<open>cpu_count()\<close>, \<open>mp4_files\<close> the result of
  \<^verbatim>\<open>synchronized_video_path.glob("*.mp4")\<close> in the order the directory lists it, and
  \<open>saved\<close> the arrays stored by \<^verbatim>\<open>np.save\<close>, by path. The result is the returned array
  or the exception, with the arrays stored afterwards. Creating the output directories
  and logging are left out.
\<close>

definition process_folder_of_videos ::
  "int \<Rightarrow> path list \<Rightarrow> ('p tracker \<Rightarrow> path \<Rightarrow> path \<Rightarrow> error + ndarray) \<Rightarrow> nat list
   \<Rightarrow> (path \<rightharpoonup> ndarray)
   \<Rightarrow> string \<Rightarrow> 'p \<Rightarrow> path \<Rightarrow> path option \<Rightarrow> path option \<Rightarrow> int option
   \<Rightarrow> (error + ndarray) \<times> (path \<rightharpoonup> ndarray)" where
  "process_folder_of_videos cpu_count mp4_files process_video schedule saved
     tracker_name tracking_params synchronized_video_path output_path annotated_video_path
     num_processes =
     (let num_processes = derive_num_processes cpu_count mp4_files num_processes in
      case file_name_dictionary tracker_name of
        None \<Rightarrow> (Inl KeyError, saved)
      | Some file_name \<Rightarrow>
          (let output_path =
                 resolve_output_path synchronized_video_path file_name output_path;
               annotated_video_path =
                 resolve_annotated_video_path synchronized_video_path annotated_video_path;
               tasks = make_tasks tracker_name tracking_params annotated_video_path mp4_files;
               array_list =
                 (if num_processes > 1
                  then pool_starmap schedule (process_single_video process_video) tasks
                  else run_tasks (process_single_video process_video) tasks [])
           in case ebind array_list np_stack of
                Inl e \<Rightarrow> (Inl e, saved)
              | Inr combined_array \<Rightarrow>
                  (Inr combined_array, saved(output_path \<mapsto> combined_array))))"


text \<open>
  The counts of OpenPose's BODY\_25 output (25 body points, 21 points per hand, 70 face
  points), for the examples. The lemmas that do not mention it hold for every count.
\<close>

definition openpose_body_25 :: openpose_model_info where
  "openpose_body_25 = \<lparr>num_tracked_points = 25, hand_markers = 21, face_markers = 70\<rparr>"

text \<open>
  The row a result file contributes to the array: its first person's keypoints, or the
  row \<open>old\<close> already there when it reports no person.
\<close>

definition frame_row :: "openpose_model_info \<Rightarrow> json_file \<Rightarrow> point list \<Rightarrow> point list" where
  "frame_row info f old =
     (if people f = [] then old
      else (case extract_keypoints info (hd (people f)) of Inr kp \<Rightarrow> kp | Inl e \<Rightarrow> old))"


section \<open>Properties of the observation\<close>

lemma landmarks_to_array_nonempty:
  "landmarks \<noteq> [] \<Longrightarrow>
   landmarks_to_array obs landmarks =
     Inr (map (\<lambda>l. (fmul (landmark_x l) (float_of_int (fst (image_size obs))),
                     fmul (landmark_y l) (float_of_int (snd (image_size obs))),
                     fmul (landmark_z l) (float_of_int (fst (image_size obs))))) landmarks)"
  by (cases landmarks) (simp_all add: landmarks_to_array_def np_array_def imul_broadcast_def)

lemma landmarks_to_array_empty: "landmarks_to_array obs [] = Inl ValueError"
  by (simp add: landmarks_to_array_def np_array_def imul_broadcast_def)





text \<open>
  C8. For a non-empty landmark list and every image size (width, height),
  \<^verbatim>\<open>landmarks_to_array\<close> returns one row per landmark, in order, and the row of the
  landmark (x, y, z) is (x * width, y * height, z * width): depth is scaled by the
  width.
\<close>

theorem landmarks_to_array_scaling:
  assumes "landmarks \<noteq> []"
  shows "landmarks_to_array obs landmarks =
     Inr (map (\<lambda>l. (fmul (landmark_x l) (float_of_int (fst (image_size obs))),
                     fmul (landmark_y l) (float_of_int (snd (image_size obs))),
                     fmul (landmark_z l) (float_of_int (fst (image_size obs))))) landmarks)"
  using assms by (rule landmarks_to_array_nonempty)

text \<open>On a 640 by 480 image the landmark (1/2, 1/4, 1/10) becomes (320, 120, 64).\<close>

theorem landmarks_to_array_scaling_witness:
  "[\<lparr>landmark_x = Finite (1/2), landmark_y = Finite (1/4), landmark_z = Finite (1/10)\<rparr>] \<noteq> []
   \<and> landmarks_to_array
        \<lparr>pose_landmarks = None, right_hand_landmarks = None, left_hand_landmarks = None,
          face_landmarks = None, image_size = (640, 480)\<rparr>
        [\<lparr>landmark_x = Finite (1/2), landmark_y = Finite (1/4), landmark_z = Finite (1/10)\<rparr>]
      = Inr [(Finite 320, Finite 120, Finite 64)]"
  using landmarks_to_array_scaling[of
     "[\<lparr>landmark_x = Finite (1/2), landmark_y = Finite (1/4), landmark_z = Finite (1/10)\<rparr>]"
     "\<lparr>pose_landmarks = None, right_hand_landmarks = None, left_hand_landmarks = None,
          face_landmarks = None, image_size = (640, 480)\<rparr>"]
  by (simp add: float_of_int_def)

section \<open>Properties of the batch job\<close>

text \<open>
  C5, as amended. With \<^verbatim>\<open>num_processes\<close> unspecified and at least one core, the derived
  worker count is the smaller of \<^verbatim>\<open>cpu_count() - 1\<close> and the number of \<^verbatim>\<open>.mp4\<close> files
  found. So it is at most \<^verbatim>\<open>cpu_count() - 1\<close>, at most the number of files, and at
  least 0; it is at least 1 exactly when there are two or more cores and at least one
  file.
\<close>

theorem derive_num_processes_default_bounds:
  assumes "1 \<le> cpu_count"
  shows "derive_num_processes cpu_count mp4_files None
           = min (cpu_count - 1) (int (length mp4_files))
       \<and> derive_num_processes cpu_count mp4_files None \<le> cpu_count - 1
       \<and> derive_num_processes cpu_count mp4_files None \<le> int (length mp4_files)
       \<and> 0 \<le> derive_num_processes cpu_count mp4_files None
       \<and> (1 \<le> derive_num_processes cpu_count mp4_files None
            \<longleftrightarrow> 2 \<le> cpu_count \<and> mp4_files \<noteq> [])"
  using assms by (cases mp4_files) (auto simp: derive_num_processes_def)

text \<open>
  Sixteen cores and eight videos give eight workers; four cores and two videos give two.
\<close>

theorem derive_num_processes_default_bounds_witness:
  "(1::int) \<le> 16
   \<and> derive_num_processes 16
         [[''videos'', ''cam0.mp4''], [''videos'', ''cam1.mp4''],
          [''videos'', ''cam2.mp4''], [''videos'', ''cam3.mp4''],
          [''videos'', ''cam4.mp4''], [''videos'', ''cam5.mp4''],
          [''videos'', ''cam6.mp4''], [''videos'', ''cam7.mp4'']] None = 8
   \<and> (1::int) \<le> 4
   \<and> derive_num_processes 4 [[''videos'', ''cam0.mp4''], [''videos'', ''cam1.mp4'']] None = 2"
  using derive_num_processes_default_bounds
          [of 16 "[[''videos'', ''cam0.mp4''], [''videos'', ''cam1.mp4''],
                   [''videos'', ''cam2.mp4''], [''videos'', ''cam3.mp4''],
                   [''videos'', ''cam4.mp4''], [''videos'', ''cam5.mp4''],
                   [''videos'', ''cam6.mp4''], [''videos'', ''cam7.mp4'']]"]
        derive_num_processes_default_bounds
          [of 4 "[[''videos'', ''cam0.mp4''], [''videos'', ''cam1.mp4'']]"]
  by simp

text \<open>
  C5 as stated fails: on a machine with one core the derived worker count for a folder
  with a video is 0, which is below 1.
\<close>

theorem derive_num_processes_default_counterexample:
  "\<not> 1 \<le> derive_num_processes 1 [[''videos'', ''cam0.mp4'']] None"
  by (simp add: derive_num_processes_def)

lemma pool_starmap_Nil: "pool_starmap schedule f [] = Inr []"
  by (simp add: pool_starmap_def completion_order_def ebind_def)

text \<open>
  C10. When the folder holds no \<^verbatim>\<open>.mp4\<close> file, \<^verbatim>\<open>process_folder_of_videos\<close> raises an
  exception, whatever its other arguments, the core count and the worker count, and
  stores no array: the ValueError of \<^verbatim>\<open>np.stack\<close> on the empty list of per-video arrays
  (or, before that, the KeyError of an unknown tracker name).
\<close>

theorem process_folder_of_videos_empty_folder:
  "process_folder_of_videos cpu_count [] process_video schedule saved
     tracker_name tracking_params synchronized_video_path output_path annotated_video_path
     num_processes
   = (Inl (case file_name_dictionary tracker_name of
             None \<Rightarrow> KeyError | Some file_name \<Rightarrow> ValueError),
      saved)"
  by (simp add: process_folder_of_videos_def make_tasks_def pool_starmap_Nil np_stack_def
        ebind_def Let_def split: option.splits)

section \<open>Serialisation of an observation\<close>

lemma json_dumps_returns_allow_nan: "json_dumps_returns True j"
  by (induction j) (auto simp: list_all_iff)

lemma tolist_nan_rows_not_strict:
  "0 < n \<Longrightarrow> \<not> json_dumps_returns False (tolist (replicate n (NaN, NaN, NaN)))"
  by (cases n) (simp_all add: tolist_def)

text \<open>
  C6, as amended. \<^verbatim>\<open>to_serializable_dict\<close> does not reject non-finite values: whenever
  the four trajectory properties return, it returns the dict of their nested lists and
  the image size with every value unchanged, NaN and the infinities included, because
  \<^verbatim>\<open>json.dumps\<close> with its default \<^verbatim>\<open>allow_nan=True\<close> accepts them.
\<close>

theorem to_serializable_dict_passes_non_finite:
  assumes "pose_trajectories S obs = Inr pose"
    and "right_hand_trajectories S obs = Inr right_hand"
    and "left_hand_trajectories S obs = Inr left_hand"
    and "face_trajectories S obs = Inr face"
  shows "to_serializable_dict S obs =
     Inr (JDict
            [(''pose_trajectories'', tolist pose),
             (''right_hand_trajectories'', tolist right_hand),
             (''left_hand_trajectories'', tolist left_hand),
             (''face_trajectories'', tolist face),
             (''image_size'',
                JList [JInt (fst (image_size obs)), JInt (snd (image_size obs))])])"
  unfolding to_serializable_dict_def assms ebind_def Let_def
  by (simp only: sum.case json_dumps_returns_allow_nan if_True)

text \<open>
  A detected pose of one landmark with infinite depth, on a schema of one point per
  region: the infinity and the NaN rows of the missing regions are in the returned dict.
\<close>

theorem to_serializable_dict_passes_non_finite_witness:
  "to_serializable_dict
     \<lparr>num_body_points = 1, num_single_hand_points = 1, num_face_points = 1\<rparr>
     \<lparr>pose_landmarks =
        Some [\<lparr>landmark_x = Finite (1/2), landmark_y = Finite (1/4), landmark_z = PosInf\<rparr>],
      right_hand_landmarks = None, left_hand_landmarks = None, face_landmarks = None,
      image_size = (640, 480)\<rparr>
   = Inr (JDict
            [(''pose_trajectories'',
                JList [JList [JFloat (Finite 320), JFloat (Finite 120), JFloat PosInf]]),
             (''right_hand_trajectories'', JList [JList [JFloat NaN, JFloat NaN, JFloat NaN]]),
             (''left_hand_trajectories'', JList [JList [JFloat NaN, JFloat NaN, JFloat NaN]]),
             (''face_trajectories'', JList [JList [JFloat NaN, JFloat NaN, JFloat NaN]]),
             (''image_size'', JList [JInt 640, JInt 480])])"
proof -
  let ?S = "\<lparr>num_body_points = 1, num_single_hand_points = 1, num_face_points = 1\<rparr>"
  let ?obs = "\<lparr>pose_landmarks =
        Some [\<lparr>landmark_x = Finite (1/2), landmark_y = Finite (1/4), landmark_z = PosInf\<rparr>],
      right_hand_landmarks = None, left_hand_landmarks = None, face_landmarks = None,
      image_size = (640, 480)\<rparr>"
  have pose: "pose_trajectories ?S ?obs = Inr [(Finite 320, Finite 120, PosInf)]"
    by (simp add: pose_trajectories_def pose_landmarks_empty_def landmarks_to_array_def
          np_array_def imul_broadcast_def float_of_int_def)
  have right_hand: "right_hand_trajectories ?S ?obs = Inr [(NaN, NaN, NaN)]"
    by (simp add: right_hand_trajectories_def right_hand_landmarks_empty_def np_full_def)
  have left_hand: "left_hand_trajectories ?S ?obs = Inr [(NaN, NaN, NaN)]"
    by (simp add: left_hand_trajectories_def left_hand_landmarks_empty_def np_full_def)
  have face: "face_trajectories ?S ?obs = Inr [(NaN, NaN, NaN)]"
    by (simp add: face_trajectories_def face_landmarks_empty_def np_full_def)
  from to_serializable_dict_passes_non_finite[OF pose right_hand left_hand face]
  show ?thesis by (simp add: tolist_def)
qed

text \<open>
  C6 as stated fails: for an observation with no region detected every trajectory value
  is NaN, and \<^verbatim>\<open>to_serializable_dict\<close> returns the dict holding them (a dict that
  \<^verbatim>\<open>json.dumps\<close> would reject with \<^verbatim>\<open>allow_nan=False\<close>).
\<close>

theorem to_serializable_dict_non_finite_counterexample:
  "to_serializable_dict mediapipe_holistic_schema
     \<lparr>pose_landmarks = None, right_hand_landmarks = None, left_hand_landmarks = None,
       face_landmarks = None, image_size = (640, 480)\<rparr>
   = Inr (JDict
            [(''pose_trajectories'', tolist (replicate 33 (NaN, NaN, NaN))),
             (''right_hand_trajectories'', tolist (replicate 21 (NaN, NaN, NaN))),
             (''left_hand_trajectories'', tolist (replicate 21 (NaN, NaN, NaN))),
             (''face_trajectories'', tolist (replicate 478 (NaN, NaN, NaN))),
             (''image_size'', JList [JInt 640, JInt 480])])
   \<and> \<not> json_dumps_returns False (tolist (replicate 33 (NaN, NaN, NaN)))"
proof -
  have "\<not> json_dumps_returns False (tolist (replicate 33 (NaN, NaN, NaN)))"
    by (rule tolist_nan_rows_not_strict) simp
  then show ?thesis
    unfolding to_serializable_dict_def ebind_def Let_def
    by (simp add: json_dumps_returns_allow_nan pose_trajectories_def
          right_hand_trajectories_def left_hand_trajectories_def face_trajectories_def
          pose_landmarks_empty_def right_hand_landmarks_empty_def
          left_hand_landmarks_empty_def face_landmarks_empty_def np_full_def
          mediapipe_holistic_schema_def)
qed

section \<open>Properties of the brightest-point recorder\<close>

lemma set_cells_frame:
  assumes "i < length arr" "arr ! i = [p]"
  shows "set_cell (set_cell (set_cell arr i 0 0 a) i 0 1 b) i 0 2 c = arr[i := [(a, b, c)]]"
  using assms by (cases p) (simp add: set_cell_def set_coordinate_def)

lemma fill_recorded_objects_eq:
  assumes "length arr = i + length objs + k" "\<forall>frame \<in> set arr. length frame = 1"
  shows "fill_recorded_objects i objs arr =
         take i arr @ map (\<lambda>obj. [(pixel_x obj, pixel_y obj, depth_z obj)]) objs
         @ drop (i + length objs) arr"
  using assms
proof (induction objs arbitrary: i arr)
  case Nil
  then show ?case by simp
next
  case (Cons obj objs)
  let ?f = "\<lambda>obj. [(pixel_x obj, pixel_y obj, depth_z obj)]"
  have i: "i < length arr" using Cons.prems(1) by simp
  then have "arr ! i \<in> set arr" by simp
  then have "length (arr ! i) = 1" using Cons.prems(2) by blast
  then obtain p where p: "arr ! i = [p]" by (cases "arr ! i") auto
  let ?arr = "arr[i := ?f obj]"
  have step: "fill_recorded_objects i (obj # objs) arr = fill_recorded_objects (Suc i) objs ?arr"
    by (simp only: fill_recorded_objects.simps set_cells_frame[OF i p])
  have len: "length ?arr = Suc i + length objs + k" using Cons.prems(1) by simp
  have frames: "\<forall>frame \<in> set ?arr. length frame = 1"
    using Cons.prems(2) by (auto dest!: set_update_subset_insert[THEN subsetD])
  have "fill_recorded_objects (Suc i) objs ?arr =
          take (Suc i) ?arr @ map ?f objs @ drop (Suc i + length objs) ?arr"
    by (rule Cons.IH[OF len frames])
  also have "take (Suc i) ?arr = take i arr @ [?f obj]"
    using i by (simp add: take_Suc_conv_app_nth)
  also have "drop (Suc i + length objs) ?arr = drop (i + length (obj # objs)) arr"
    by simp
  finally show ?case using step by simp
qed

lemma process_tracked_objects_array:
  "fst (process_tracked_objects r) =
     map (\<lambda>obj. [(pixel_x obj, pixel_y obj, depth_z obj)]) (recorded_objects r)"
  using fill_recorded_objects_eq[of "np_zeros_n_1_3 (length (recorded_objects r))" 0
          "recorded_objects r" 0]
  by (simp add: process_tracked_objects_def Let_def np_zeros_n_1_3_def)

lemma process_tracked_objects_keeps_records:
  "recorded_objects (snd (process_tracked_objects r)) = recorded_objects r"
  by (simp add: process_tracked_objects_def Let_def)

text \<open>
  C9. For every recorder state, the empty one included, a second call of
  \<^verbatim>\<open>process_tracked_objects\<close> with no \<^verbatim>\<open>record\<close> in between returns the same array as
  the first and leaves the same state; the array has one frame per recorded object, each
  frame one point, and that point is the object's (pixel\_x, pixel\_y, depth\_z).
\<close>

theorem process_tracked_objects_idempotent:
  "process_tracked_objects (snd (process_tracked_objects r)) = process_tracked_objects r
   \<and> fst (process_tracked_objects r)
     = map (\<lambda>obj. [(pixel_x obj, pixel_y obj, depth_z obj)]) (recorded_objects r)
   \<and> length (fst (process_tracked_objects r)) = length (recorded_objects r)
   \<and> map length (fst (process_tracked_objects r)) = replicate (length (recorded_objects r)) 1"
proof -
  have "process_tracked_objects (snd (process_tracked_objects r)) = process_tracked_objects r"
    by (simp add: process_tracked_objects_def Let_def)
  then show ?thesis
    by (simp add: process_tracked_objects_array map_replicate_const comp_def)
qed

section \<open>Stacking the per-video arrays\<close>

lemma run_tasks_Inr:
  "map f tasks = map Inr rs \<Longrightarrow> run_tasks f tasks acc = Inr (acc @ rs)"
proof (induction tasks arbitrary: acc rs)
  case Nil
  then show ?case by simp
next
  case (Cons t tasks)
  then obtain r rs' where rs: "rs = r # rs'" "f t = Inr r" "map f tasks = map Inr rs'"
    by (cases rs) auto
  from Cons.IH[OF rs(3), of "acc @ [r]"] rs show ?case by (simp add: ebind_def)
qed


lemma set_completion_order: "set (completion_order n schedule) = {..<n}"
  by (auto simp: completion_order_def)

lemma pool_gather_Inr:
  assumes "\<forall>i \<in> set order. i < length tasks \<and> f (tasks ! i) = Inr (rs ! i)"
    and "length slots = length tasks"
  shows "pool_gather f tasks order slots =
         Inr (map (\<lambda>i. if i \<in> set order then Some (rs ! i) else slots ! i) [0..<length tasks])"
  using assms
proof (induction order arbitrary: slots)
  case Nil
  have "map (\<lambda>i. slots ! i) [0..<length slots] = slots" by (rule map_nth)
  with Nil show ?case by simp
next
  case (Cons i order)
  have i: "i < length tasks" "f (tasks ! i) = Inr (rs ! i)" using Cons.prems(1) by auto
  let ?slots = "slots[i := Some (rs ! i)]"
  have "pool_gather f tasks order ?slots =
         Inr (map (\<lambda>j. if j \<in> set order then Some (rs ! j) else ?slots ! j) [0..<length tasks])"
    using Cons.prems by (intro Cons.IH) auto
  moreover have "map (\<lambda>j. if j \<in> set order then Some (rs ! j) else ?slots ! j) [0..<length tasks]
      = map (\<lambda>j. if j \<in> set (i # order) then Some (rs ! j) else slots ! j) [0..<length tasks]"
    using Cons.prems(2) by (auto simp: nth_list_update)
  ultimately show ?case using i by (simp add: ebind_def)
qed


lemma pool_starmap_Inr:
  assumes "map f tasks = map Inr rs"
  shows "pool_starmap schedule f tasks = Inr rs"
proof -
  have len: "length rs = length tasks" using assms by (metis length_map)
  have nth: "\<forall>i < length tasks. f (tasks ! i) = Inr (rs ! i)"
    using assms len by (metis nth_map)
  let ?order = "completion_order (length tasks) schedule"
  have "pool_gather f tasks ?order (replicate (length tasks) None) =
         Inr (map (\<lambda>i. if i \<in> set ?order then Some (rs ! i) else replicate (length tasks) None ! i)
                [0..<length tasks])"
    using nth by (intro pool_gather_Inr) (auto simp: set_completion_order)
  also have "map (\<lambda>i. if i \<in> set ?order then Some (rs ! i) else replicate (length tasks) None ! i)
                [0..<length tasks] = map (\<lambda>i. Some (rs ! i)) [0..<length tasks]"
    by (auto simp: set_completion_order)
  finally have gather: "pool_gather f tasks ?order (replicate (length tasks) None) =
      Inr (map (\<lambda>i. Some (rs ! i)) [0..<length tasks])" .
  have "map (\<lambda>i. rs ! i) [0..<length rs] = rs" by (rule map_nth)
  then have "map the (map (\<lambda>i. Some (rs ! i)) [0..<length tasks]) = rs"
    using len by (simp add: comp_def)
  with gather show ?thesis by (simp add: pool_starmap_def ebind_def)
qed




lemma process_folder_of_videos_stack:
  assumes "file_name_dictionary tracker_name = Some file_name"
    and "map (process_single_video process_video)
           (make_tasks tracker_name tracking_params
              (resolve_annotated_video_path synchronized_video_path annotated_video_path)
              mp4_files)
         = map Inr arrays"
  shows "process_folder_of_videos cpu_count mp4_files process_video schedule saved
           tracker_name tracking_params synchronized_video_path output_path
           annotated_video_path num_processes
         = (case np_stack arrays of
              Inl e \<Rightarrow> (Inl e, saved)
            | Inr combined_array \<Rightarrow>
                (Inr combined_array,
                 saved(resolve_output_path synchronized_video_path file_name output_path
                         \<mapsto> combined_array)))"
  unfolding process_folder_of_videos_def Let_def
  by (simp add: assms pool_starmap_Inr[OF assms(2)] run_tasks_Inr[OF assms(2)] ebind_def)

lemma np_stack_mismatch:
  assumes "a \<in> set arrays" "b \<in> set arrays" "shape a \<noteq> shape b"
  shows "np_stack arrays = Inl ValueError"
proof -
  have "shape a \<noteq> shape (hd arrays) \<or> shape b \<noteq> shape (hd arrays)"
    using assms(3) by metis
  then have "\<not> list_all (\<lambda>a. shape a = shape (hd arrays)) arrays"
    using assms(1,2) unfolding list_all_iff by blast
  then show ?thesis by (simp add: np_stack_def)
qed

lemma np_stack_agree:
  assumes "arrays \<noteq> []" "\<forall>a \<in> set arrays. shape a = s"
  shows "np_stack arrays = Inr \<lparr>shape = length arrays # s, flat = concat (map flat arrays)\<rparr>"
proof -
  have "shape (hd arrays) = s" using assms by simp
  moreover have "list_all (\<lambda>a. shape a = s) arrays" using assms(2) by (simp add: list_all_iff)
  ultimately show ?thesis using assms(1) by (simp add: np_stack_def)
qed

text \<open>
  C3. Let every video of the folder be processed to an array, \<open>arrays\<close> in the order of
  the listing, under a known tracker name. If two of the arrays differ in shape (in the
  number of frames or of tracked points), \<^verbatim>\<open>process_folder_of_videos\<close> raises ValueError
  and stores nothing. If there is at least one array and all have the shape
  (num\_frames, num\_points, 3), it returns the array of shape
  (num\_cameras, num\_frames, num\_points, 3) whose cells are the cells of the per-video
  arrays one after the other, none cut and none added, and stores that array at the
  output path. This holds in both branches, for every worker count and completion order.
\<close>

theorem process_folder_of_videos_shapes:
  assumes "file_name_dictionary tracker_name = Some file_name"
    and "map (process_single_video process_video)
           (make_tasks tracker_name tracking_params
              (resolve_annotated_video_path synchronized_video_path annotated_video_path)
              mp4_files)
         = map Inr arrays"
  shows "((\<exists>a \<in> set arrays. \<exists>b \<in> set arrays. shape a \<noteq> shape b) \<longrightarrow>
            process_folder_of_videos cpu_count mp4_files process_video schedule saved
              tracker_name tracking_params synchronized_video_path output_path
              annotated_video_path num_processes
            = (Inl ValueError, saved))
       \<and> (arrays \<noteq> [] \<and> (\<forall>a \<in> set arrays. shape a = [num_frames, num_points, 3]) \<longrightarrow>
            process_folder_of_videos cpu_count mp4_files process_video schedule saved
              tracker_name tracking_params synchronized_video_path output_path
              annotated_video_path num_processes
            = (Inr \<lparr>shape = [length mp4_files, num_frames, num_points, 3],
                     flat = concat (map flat arrays)\<rparr>,
               saved(resolve_output_path synchronized_video_path file_name output_path
                       \<mapsto> \<lparr>shape = [length mp4_files, num_frames, num_points, 3],
                                flat = concat (map flat arrays)\<rparr>)))"
proof -
  have len: "length arrays = length mp4_files"
    using assms(2) by (metis length_map make_tasks_def)
  have mismatch: "np_stack arrays = Inl ValueError"
    if "\<exists>a \<in> set arrays. \<exists>b \<in> set arrays. shape a \<noteq> shape b"
    using that np_stack_mismatch by blast
  have agree: "np_stack arrays =
        Inr \<lparr>shape = [length mp4_files, num_frames, num_points, 3],
             flat = concat (map flat arrays)\<rparr>"
    if "arrays \<noteq> [] \<and> (\<forall>a \<in> set arrays. shape a = [num_frames, num_points, 3])"
    using that np_stack_agree[of arrays "[num_frames, num_points, 3]"] len by simp
  show ?thesis
    unfolding process_folder_of_videos_stack[OF assms]
    by (intro conjI impI) (simp_all add: mismatch agree)
qed

text \<open>
  Two one-frame videos under the brightest-point tracker: with per-video shapes (1, 1, 3)
  and (2, 1, 3) the job raises ValueError, with (1, 1, 3) twice it returns the array of
  shape (2, 1, 1, 3).
\<close>

theorem process_folder_of_videos_shapes_witness:
  "file_name_dictionary ''BrightestPointTracker''
     = Some ''brightestPoint2dData_numCams_numFrames_numTrackedPoints_pixelXY.npy''
 \<and> fst (process_folder_of_videos 4 [[''videos'', ''cam0.mp4''], [''videos'', ''cam1.mp4'']]
      (\<lambda>tracker video_path output_video_path.
          if video_path = [''videos'', ''cam0.mp4'']
          then Inr \<lparr>shape = [1, 1, 3], flat = [Finite 10, Finite 20, Finite 0]\<rparr>
          else Inr \<lparr>shape = [2, 1, 3],
                    flat = [Finite 30, Finite 40, Finite 0, Finite 31, Finite 41, Finite 0]\<rparr>)
      [1, 0] Map.empty ''BrightestPointTracker'' () [''session'', ''videos''] None None None)
    = Inl ValueError
 \<and> fst (process_folder_of_videos 4 [[''videos'', ''cam0.mp4''], [''videos'', ''cam1.mp4'']]
      (\<lambda>tracker video_path output_video_path.
          if video_path = [''videos'', ''cam0.mp4'']
          then Inr \<lparr>shape = [1, 1, 3], flat = [Finite 10, Finite 20, Finite 0]\<rparr>
          else Inr \<lparr>shape = [1, 1, 3], flat = [Finite 30, Finite 40, Finite 0]\<rparr>)
      [1, 0] Map.empty ''BrightestPointTracker'' () [''session'', ''videos''] None None None)
    = Inr \<lparr>shape = [2, 1, 1, 3],
           flat = [Finite 10, Finite 20, Finite 0, Finite 30, Finite 40, Finite 0]\<rparr>"
proof -
  let ?name = "''brightestPoint2dData_numCams_numFrames_numTrackedPoints_pixelXY.npy''"
  let ?files = "[[''videos'', ''cam0.mp4''], [''videos'', ''cam1.mp4'']]"
  let ?a0 = "\<lparr>shape = [1, 1, 3], flat = [Finite 10, Finite 20, Finite 0]\<rparr>"
  let ?a1 = "\<lparr>shape = [1, 1, 3], flat = [Finite 30, Finite 40, Finite 0]\<rparr>"
  let ?b1 = "\<lparr>shape = [2, 1, 3],
               flat = [Finite 30, Finite 40, Finite 0, Finite 31, Finite 41, Finite 0]\<rparr>"
  let ?agree = "\<lambda>tracker video_path output_video_path.
                  if video_path = [''videos'', ''cam0.mp4''] then Inr ?a0 else Inr ?a1"
  let ?differ = "\<lambda>tracker video_path output_video_path.
                  if video_path = [''videos'', ''cam0.mp4''] then Inr ?a0 else Inr ?b1"
  have name: "file_name_dictionary ''BrightestPointTracker'' = Some ?name"
    by (simp add: file_name_dictionary_def)
  have per_video_differ:
    "map (process_single_video ?differ)
       (make_tasks ''BrightestPointTracker'' ()
          (resolve_annotated_video_path [''session'', ''videos''] None) ?files)
     = map Inr [?a0, ?b1]"
    by (simp add: make_tasks_def process_single_video_def get_tracker_def ebind_def)
  have per_video_agree:
    "map (process_single_video ?agree)
       (make_tasks ''BrightestPointTracker'' ()
          (resolve_annotated_video_path [''session'', ''videos''] None) ?files)
     = map Inr [?a0, ?a1]"
    by (simp add: make_tasks_def process_single_video_def get_tracker_def ebind_def)
  have differ: "\<exists>a \<in> set [?a0, ?b1]. \<exists>b \<in> set [?a0, ?b1]. shape a \<noteq> shape b"
    by (intro bexI[of _ ?a0] bexI[of _ ?b1]) simp_all
  have agree: "[?a0, ?a1] \<noteq> [] \<and> (\<forall>a \<in> set [?a0, ?a1]. shape a = [1, 1, 3])"
    by simp
  have "process_folder_of_videos 4 ?files ?differ [1, 0] Map.empty ''BrightestPointTracker'' ()
          [''session'', ''videos''] None None None = (Inl ValueError, Map.empty)"
    using process_folder_of_videos_shapes[OF name per_video_differ] differ by blast
  moreover have "process_folder_of_videos 4 ?files ?agree [1, 0] Map.empty
          ''BrightestPointTracker'' () [''session'', ''videos''] None None None
        = (Inr \<lparr>shape = [length ?files, 1, 1, 3], flat = concat (map flat [?a0, ?a1])\<rparr>,
           Map.empty(resolve_output_path [''session'', ''videos''] ?name None
             \<mapsto> \<lparr>shape = [length ?files, 1, 1, 3], flat = concat (map flat [?a0, ?a1])\<rparr>))"
    using process_folder_of_videos_shapes[OF name per_video_agree] agree by blast
  ultimately show ?thesis using name by simp
qed



section \<open>Properties of the OpenPose recorder\<close>

lemma triples_replicate: "triples (replicate (3 * n) v) = replicate n (v, v, v)"
  by (induction n) (simp_all add: numeral_3_eq_3)

lemma length_triples: "length (triples v) = length v div 3"
  by (induction v rule: triples.induct) simp_all

lemma extract_keypoints_pose_only:
  assumes "length v = 3 * num_tracked_points info"
  shows "extract_keypoints info [''pose_keypoints_2d'' \<mapsto> v]
       = Inr (triples v @ replicate (2 * hand_markers info + face_markers info) (NaN, NaN, NaN))"
proof -
  have len: "length (triples v) = num_tracked_points info"
    using assms by (simp add: length_triples)
  have reshape: "reshape_3 v = Inr (triples v)"
    using assms by (simp add: reshape_3_def)
  show ?thesis
    by (simp add: extract_keypoints_def Let_def reshape ebind_def assign_rows_def
          broadcast_rows_def len np_full_def)
qed

lemma extract_frame_index_0: "extract_frame_index ''video_000000000000_keypoints.json'' = Some 0"
  by (simp add: match_frame_index_here_def is_digit_def int_of_digits_def digit_value_def)

lemma extract_frame_index_1: "extract_frame_index ''video_000000000001_keypoints.json'' = Some 1"
  by (simp add: match_frame_index_here_def is_digit_def int_of_digits_def digit_value_def)

lemma assign_rows_length:
  assumes "assign_rows arr start stop v = Inr arr'" "start \<le> stop" "stop \<le> length arr"
  shows "length arr' = length arr"
proof -
  from assms(1) obtain rows where rows: "broadcast_rows (stop - start) v = Inr rows"
    and arr': "arr' = take start arr @ rows @ drop stop arr"
    by (auto simp: assign_rows_def ebind_def split: sum.splits)
  from rows have "length rows = stop - start"
    by (auto simp: broadcast_rows_def split: if_splits)
  with arr' assms(2,3) show ?thesis by simp
qed

lemma extract_keypoints_length:
  assumes "extract_keypoints info person_data = Inr keypoints"
  shows "length keypoints
         = num_tracked_points info + 2 * hand_markers info + face_markers info"
proof -
  let ?b = "num_tracked_points info" and ?h = "hand_markers info" and ?f = "face_markers info"
  let ?K = "?b + 2 * ?h + ?f"
  define pose where "pose =
    (case person_data ''pose_keypoints_2d'' of
       None \<Rightarrow> Inr (np_full ?K NaN)
     | Some v \<Rightarrow> ebind (reshape_3 v) (\<lambda>r. assign_rows (np_full ?K NaN) 0 ?b (take ?b r)))"
  define hands where "hands = (\<lambda>keypoints_array.
    (case (person_data ''hand_left_keypoints_2d'', person_data ''hand_right_keypoints_2d'') of
       (Some vl, Some vr) \<Rightarrow>
         ebind (reshape_3 vl) (\<lambda>rl.
         ebind (assign_rows keypoints_array ?b (?b + ?h) (take ?h rl)) (\<lambda>arr.
         ebind (reshape_3 vr) (\<lambda>rr.
           assign_rows arr (?b + ?h) (?b + 2 * ?h) (take ?h rr))))
     | _ \<Rightarrow> Inr keypoints_array))"
  define face where "face = (\<lambda>keypoints_array.
    (case person_data ''face_keypoints_2d'' of
       None \<Rightarrow> Inr keypoints_array
     | Some v \<Rightarrow> ebind (reshape_3 v) (\<lambda>r.
         assign_rows keypoints_array (?b + 2 * ?h) (?b + 2 * ?h + ?f) (take ?f r))))"
  have unfold: "extract_keypoints info person_data = ebind pose (\<lambda>a. ebind (hands a) face)"
    by (simp add: extract_keypoints_def Let_def pose_def hands_def face_def)
  from assms obtain a1 a2 where a1: "pose = Inr a1" and a2: "hands a1 = Inr a2"
    and a3: "face a2 = Inr keypoints"
    unfolding unfold by (auto simp: ebind_def split: sum.splits)
  have l1: "length a1 = ?K"
    using a1 unfolding pose_def
    by (auto simp: np_full_def ebind_def split: option.splits sum.splits
          dest!: assign_rows_length)
  have l2: "length a2 = ?K"
  proof (cases "person_data ''hand_left_keypoints_2d''")
    case None
    with a2 l1 show ?thesis by (simp add: hands_def)
  next
    case left: (Some vl)
    show ?thesis
    proof (cases "person_data ''hand_right_keypoints_2d''")
      case None
      with a2 l1 left show ?thesis by (simp add: hands_def)
    next
      case right: (Some vr)
      from a2 left right obtain rl arr rr where
        s1: "assign_rows a1 ?b (?b + ?h) (take ?h rl) = Inr arr" and
        s2: "assign_rows arr (?b + ?h) (?b + 2 * ?h) (take ?h rr) = Inr a2"
        by (auto simp: hands_def ebind_def split: sum.splits)
      from assign_rows_length[OF s1] l1 have "length arr = ?K" by simp
      with assign_rows_length[OF s2] show ?thesis by simp
    qed
  qed
  show ?thesis
    using a3 l2 unfolding face_def
    by (auto simp: ebind_def split: option.splits sum.splits dest!: assign_rows_length)
qed

lemma process_json_files_shape_mismatch:
  assumes "num_tracked_points info + 2 * hand_markers info + face_markers info \<noteq> num_markers"
    and "num_tracked_points info + 2 * hand_markers info + face_markers info \<noteq> 1"
    and "\<exists>f \<in> set files. people f \<noteq> []"
  shows "\<exists>e. process_json_files info num_markers frame_indices file_index files data_array
             = Inl e"
  using assms(3)
proof (induction files arbitrary: file_index data_array)
  case Nil
  then show ?case by simp
next
  case (Cons f files)
  show ?case
  proof (cases "people f = []")
    case True
    with Cons.prems have "\<exists>f \<in> set files. people f \<noteq> []" by auto
    from Cons.IH[OF this] True show ?thesis by simp
  next
    case False
    show ?thesis
    proof (cases "extract_keypoints info (hd (people f))")
      case (Inl e)
      with False show ?thesis by (simp add: ebind_def)
    next
      case (Inr keypoints)
      from extract_keypoints_length[OF Inr] assms(1,2)
      have "broadcast_rows num_markers keypoints = Inl ValueError"
        by (simp add: broadcast_rows_def)
      then have "\<exists>e. assign_frame num_markers data_array (frame_indices ! file_index) keypoints
                   = Inl e"
        by (simp add: assign_frame_def ebind_def split: option.splits)
      with False Inr show ?thesis by (auto simp: ebind_def)
    qed
  qed
qed

text \<open>
  With a non-empty region disabled, the keypoints of a person never fit the frames of
  the array: every directory in which some file reports a person makes
  \<^verbatim>\<open>parse_openpose_jsons\<close> raise, for every choice of the marker counts.
\<close>

lemma parse_openpose_jsons_disabled_region:
  assumes "(\<not> track_hands \<and> 0 < hand_markers info) \<or> (\<not> track_faces \<and> 0 < face_markers info)"
    and "0 < num_tracked_points info"
    and "\<exists>f \<in> set files. people f \<noteq> []"
  shows "\<exists>e. parse_openpose_jsons track_hands track_faces info files = Inl e"
proof -
  let ?M = "num_tracked_points info
                 + (if track_hands then hand_markers info * 2 else 0)
                 + (if track_faces then face_markers info else 0)"
  have ne: "num_tracked_points info + 2 * hand_markers info + face_markers info \<noteq> ?M"
    using assms(1) by auto
  have n1: "num_tracked_points info + 2 * hand_markers info + face_markers info \<noteq> 1"
    using assms(1,2) by auto
  show ?thesis
  proof (cases "sort_frame_indices (map (\<lambda>f. extract_frame_index (json_name f)) files)")
    case (Inl e)
    then show ?thesis by (simp add: parse_openpose_jsons_def ebind_def)
  next
    case (Inr frame_indices)
    from process_json_files_shape_mismatch[OF ne n1 assms(3)]
    obtain e where "process_json_files info ?M frame_indices 0 files
        (replicate (length files) (np_full ?M NaN)) = Inl e"
      by blast
    with Inr show ?thesis by (simp add: parse_openpose_jsons_def ebind_def Let_def)
  qed
qed

text \<open>
  What the code does when the file names carry the indices 0 to n - 1 in any order and
  hands and face are enabled: row i of the result comes from the i-th file of the
  listing, whatever frame index that file's name carries.
\<close>

lemma process_json_files_listing_order:
  assumes "\<forall>j < length files. frame_indices ! (i + j) = Some (i + j)"
    and "length arr = i + length files"
    and "\<forall>f \<in> set files. people f \<noteq> [] \<longrightarrow>
           (\<exists>kp. extract_keypoints info (hd (people f)) = Inr kp)"
    and "num_markers = num_tracked_points info + 2 * hand_markers info + face_markers info"
  shows "process_json_files info num_markers frame_indices i files arr
       = Inr (take i arr @ map (\<lambda>(f, old). frame_row info f old) (zip files (drop i arr)))"
  using assms(1,2,3)
proof (induction files arbitrary: i arr)
  case Nil
  then show ?case by simp
next
  case (Cons f files)
  have i: "i < length arr" using Cons.prems(2) by simp
  have idx: "frame_indices ! i = Some i" using Cons.prems(1)[rule_format, of 0] by simp
  have idx': "\<forall>j < length files. frame_indices ! (Suc i + j) = Some (Suc i + j)"
    using Cons.prems(1) by (auto dest: spec[of _ "Suc j" for j])
  have ok': "\<forall>f \<in> set files. people f \<noteq> [] \<longrightarrow>
               (\<exists>kp. extract_keypoints info (hd (people f)) = Inr kp)"
    using Cons.prems(3) by simp
  have drop: "drop i arr = arr ! i # drop (Suc i) arr"
    using i by (simp add: Cons_nth_drop_Suc)
  show ?case
  proof (cases "people f = []")
    case True
    have "process_json_files info num_markers frame_indices (Suc i) files arr
          = Inr (take (Suc i) arr
                 @ map (\<lambda>(f, old). frame_row info f old) (zip files (drop (Suc i) arr)))"
      using Cons.prems(2) by (intro Cons.IH[OF idx' _ ok']) simp
    then show ?thesis
      using True i by (simp add: drop frame_row_def take_Suc_conv_app_nth)
  next
    case False
    with Cons.prems(3) obtain kp where kp: "extract_keypoints info (hd (people f)) = Inr kp"
      by auto
    from extract_keypoints_length[OF kp] assms(4) have "length kp = num_markers" by simp
    then have assign: "assign_frame num_markers arr (frame_indices ! i) kp = Inr (arr[i := kp])"
      using i idx by (simp add: assign_frame_def broadcast_rows_def ebind_def)
    have "process_json_files info num_markers frame_indices (Suc i) files (arr[i := kp])
          = Inr (take (Suc i) (arr[i := kp])
                 @ map (\<lambda>(f, old). frame_row info f old)
                     (zip files (drop (Suc i) (arr[i := kp]))))"
      using Cons.prems(2) by (intro Cons.IH[OF idx' _ ok']) simp
    then show ?thesis
      using False i kp assign
      by (simp add: drop frame_row_def take_Suc_conv_app_nth ebind_def)
  qed
qed

lemma sort_frame_indices_permutation:
  assumes "mset indices = mset (map Some [0..<n])"
  shows "sort_frame_indices indices = Inr (map Some [0..<n])"
proof -
  have "set indices = set (map Some [0..<n])"
    using assms by (rule mset_eq_setD)
  then have none: "None \<notin> set indices" by auto
  have "mset (map the indices) = image_mset the (mset indices)" by simp
  also have "\<dots> = image_mset the (mset (map Some [0..<n]))" by (simp only: assms)
  also have "\<dots> = mset [0..<n]" by (simp add: multiset.map_comp comp_def)
  finally have "sort (map the indices) = [0..<n]"
    by (intro properties_for_sort) simp_all
  moreover have "indices \<noteq> [None]" using none by auto
  ultimately show ?thesis using none by (simp add: sort_frame_indices_def)
qed

lemma parse_openpose_jsons_listing_order:
  assumes "mset (map (\<lambda>f. extract_frame_index (json_name f)) files)
           = mset (map Some [0..<length files])"
    and "\<forall>f \<in> set files. people f \<noteq> [] \<longrightarrow>
           (\<exists>kp. extract_keypoints info (hd (people f)) = Inr kp)"
  shows "parse_openpose_jsons True True info files
       = Inr (map (\<lambda>f. frame_row info f
                  (replicate (num_tracked_points info + 2 * hand_markers info + face_markers info)
                     (NaN, NaN, NaN))) files)"
proof -
  let ?K = "num_tracked_points info + 2 * hand_markers info + face_markers info"
  let ?M = "num_tracked_points info + (if True then hand_markers info * 2 else 0)
              + (if True then face_markers info else 0)"
  have M: "?M = ?K" by simp
  have "process_json_files info ?K (map Some [0..<length files]) 0 files
          (replicate (length files) (np_full ?K NaN))
        = Inr (take 0 (replicate (length files) (np_full ?K NaN))
               @ map (\<lambda>(f, old). frame_row info f old)
                   (zip files (drop 0 (replicate (length files) (np_full ?K NaN)))))"
    by (rule process_json_files_listing_order) (use assms(2) in simp_all)
  also have "map (\<lambda>(f, old). frame_row info f old)
               (zip files (drop 0 (replicate (length files) (np_full ?K NaN))))
           = map (\<lambda>f. frame_row info f (replicate ?K (NaN, NaN, NaN))) files"
    by (simp add: np_full_def zip_replicate2 comp_def case_prod_beta)
  finally have run: "process_json_files info ?K (map Some [0..<length files]) 0 files
          (replicate (length files) (np_full ?K NaN))
        = Inr (map (\<lambda>f. frame_row info f (replicate ?K (NaN, NaN, NaN))) files)"
    by simp
  have "parse_openpose_jsons True True info files
        = process_json_files info ?M (map Some [0..<length files]) 0 files
            (replicate (length files) (np_full ?M NaN))"
    unfolding parse_openpose_jsons_def Let_def sort_frame_indices_permutation[OF assms(1)]
    by (simp only: ebind_def sum.case)
  also have "\<dots> = process_json_files info ?K (map Some [0..<length files]) 0 files
            (replicate (length files) (np_full ?K NaN))"
    by (simp only: M)
  finally show ?thesis using run by simp
qed

text \<open>
  C2, which the code does not satisfy. Two result files whose names carry the frame indices 1 and 0 are
  listed in this order, the first reporting no person and the second one person with 25
  body keypoints; hands and face are enabled. The code leaves row 0 NaN and writes the
  second file's keypoints to row 1, where C2 has each file at the row of its own frame
  index: the keypoints at row 0 and the NaN row at row 1.
\<close>

theorem parse_openpose_jsons_discovery_order:
  "extract_frame_index ''video_000000000001_keypoints.json'' = Some 1
 \<and> extract_frame_index ''video_000000000000_keypoints.json'' = Some 0
 \<and> parse_openpose_jsons True True openpose_body_25
      [\<lparr>json_name = ''video_000000000001_keypoints.json'', people = []\<rparr>,
       \<lparr>json_name = ''video_000000000000_keypoints.json'',
        people = [[''pose_keypoints_2d'' \<mapsto> replicate 75 (Finite 1)]]\<rparr>]
    = Inr [replicate 137 (NaN, NaN, NaN),
           replicate 25 (Finite 1, Finite 1, Finite 1) @ replicate 112 (NaN, NaN, NaN)]"
proof -
  have kp: "extract_keypoints openpose_body_25
               [''pose_keypoints_2d'' \<mapsto> replicate 75 (Finite 1)]
       = Inr (replicate 25 (Finite 1, Finite 1, Finite 1) @ replicate 112 (NaN, NaN, NaN))"
    using extract_keypoints_pose_only[of "replicate 75 (Finite 1)" openpose_body_25]
          triples_replicate[of 25 "Finite 1"]
    by (simp add: openpose_body_25_def)
  have fields: "num_tracked_points openpose_body_25 = 25"
    "hand_markers openpose_body_25 = 21" "face_markers openpose_body_25 = 70"
    by (simp_all add: openpose_body_25_def)
  show ?thesis
    by (simp add: parse_openpose_jsons_def Let_def extract_frame_index_0
          extract_frame_index_1 sort_frame_indices_def ebind_def kp fields
          assign_frame_def broadcast_rows_def np_full_def
          del: extract_frame_index.simps)
qed

text \<open>
  C7, which the code does not satisfy. With hands and face disabled (the defaults) and one result file
  reporting a person with 25 body keypoints, the code raises ValueError: the keypoints of
  a person always have 25 + 2 * 21 + 70 rows, and the frame they are assigned to has 25.
  C7 has the ingestion succeed with an array sized to the enabled regions.
\<close>

theorem parse_openpose_jsons_default_flags:
  "parse_openpose_jsons False False openpose_body_25
      [\<lparr>json_name = ''video_000000000000_keypoints.json'',
        people = [[''pose_keypoints_2d'' \<mapsto> replicate 75 (Finite 1)]]\<rparr>]
    = Inl ValueError"
proof -
  have kp: "extract_keypoints openpose_body_25
               [''pose_keypoints_2d'' \<mapsto> replicate 75 (Finite 1)]
       = Inr (replicate 25 (Finite 1, Finite 1, Finite 1) @ replicate 112 (NaN, NaN, NaN))"
    using extract_keypoints_pose_only[of "replicate 75 (Finite 1)" openpose_body_25]
          triples_replicate[of 25 "Finite 1"]
    by (simp add: openpose_body_25_def)
  have fields: "num_tracked_points openpose_body_25 = 25"
    "hand_markers openpose_body_25 = 21" "face_markers openpose_body_25 = 70"
    by (simp_all add: openpose_body_25_def)
  show ?thesis
    by (simp add: parse_openpose_jsons_def Let_def extract_frame_index_0
          sort_frame_indices_def ebind_def kp fields assign_frame_def broadcast_rows_def
          np_full_def
          del: extract_frame_index.simps)
qed

end
